theory Spec2Isabelle
  imports Main "HOL-Library.Word" "HOL-Library.Signed_Division"
begin

section \<open>Watering\_System\_V\_5.1.ino: data\<close>

text \<open>
  The sketch is an Arduino program for an AVR board: \<open>int\<close> is a 16-bit and
  \<open>long\<close> a 32-bit two's complement integer. Both are words here; \<open>sint\<close>
  reads them as signed values, and a comparison between an \<open>int\<close> and a
  \<open>long\<close> (the \<open>int\<close> is promoted) compares the two signed readings.
\<close>

type_synonym cint = "16 word"
type_synonym long = "32 word"

text \<open>
  The RTC library (DS3231.h) is not part of the repository. A \<open>Time\<close> is
  represented by the one thing the sketch's arithmetic reads from it: the number
  \<open>rtc.getUnixTime\<close> returns for it (a \<open>long\<close>).
\<close>

datatype Time = Time (getUnixTime: long)

record Plant =
  name :: string
  pumpPin :: cint
  lightPin :: cint
  maxDryTime :: cint
  waterTime :: cint
  buttonPin :: cint
  lastWatered :: Time
  lastWateredFor :: cint
  needsWater :: bool

definition ERR_WATER_TIME :: long where
  "ERR_WATER_TIME = 300"

definition LCD_CHANGE_TIME :: long where
  "LCD_CHANGE_TIME = 4000"

definition numPlants :: cint where
  "numPlants = 3"

definition errorLED :: cint where
  "errorLED = 8"

definition errorResetButton :: cint where
  "errorResetButton = 10"

definition HIGH :: bool where
  "HIGH = True"

definition LOW :: bool where
  "LOW = False"

text \<open>The three plants of the sketch; \<open>nt\<close> is the default-constructed \<open>nullTime\<close>.\<close>

definition gBonsai :: "Time \<Rightarrow> Plant" where
  "gBonsai nt = \<lparr>name = ''LEFT BONSAI'', pumpPin = 6, lightPin = 4, maxDryTime = 7200,
     waterTime = 180, buttonPin = 12, lastWatered = nt, lastWateredFor = 0,
     needsWater = False\<rparr>"

definition bBonsai :: "Time \<Rightarrow> Plant" where
  "bBonsai nt = \<lparr>name = ''RIGHT BONSAI'', pumpPin = 7, lightPin = 3, maxDryTime = 4320,
     waterTime = 180, buttonPin = 11, lastWatered = nt, lastWateredFor = 0,
     needsWater = False\<rparr>"

definition succulent :: "Time \<Rightarrow> Plant" where
  "succulent nt = \<lparr>name = ''SUCCULENT'', pumpPin = - 1, lightPin = 2, maxDryTime = 10080,
     waterTime = 90, buttonPin = 10, lastWatered = nt, lastWateredFor = 0,
     needsWater = False\<rparr>"

text \<open>
  The world outside the controller. Every \<open>rtc.getTime()\<close> and every
  \<open>digitalRead\<close> takes the next sample from a list: the clock's reading and the
  input pins that read LOW at that moment. A finite list is an observation of
  finite length; a read that finds the list empty is where the observation ends.
\<close>

record env =
  clock :: Time
  low :: "cint list"

definition digitalRead :: "env \<Rightarrow> cint \<Rightarrow> bool" where
  "digitalRead w pin = (if pin \<in> set (low w) then LOW else HIGH)"

text \<open>
  The globals of the sketch. \<open>wateringTime\<close> is the local variable of
  \<open>loop()\<close> that outlives the watering loop (lines 170 to 202). \<open>outputs\<close>
  is the history of all \<open>digitalWrite\<close> calls, the latest first; the LCD's
  text and the serial log are not modelled.
\<close>

record state =
  plants :: "Plant list"
  error :: bool
  watering :: bool
  plantCounter :: cint
  currentPlant :: Plant
  lcdCounter :: cint
  lcdLastChange :: Time
  waterStartTime :: Time
  currentTime :: Time
  wateringTime :: long
  outputs :: "(cint \<times> bool) list"

definition digitalWrite :: "cint \<Rightarrow> bool \<Rightarrow> state \<Rightarrow> state" where
  "digitalWrite pin v s = s\<lparr>outputs := (pin, v) # outputs s\<rparr>"

text \<open>The level of an output pin after a history of writes; LOW before the first write.\<close>

definition level :: "(cint \<times> bool) list \<Rightarrow> cint \<Rightarrow> bool" where
  "level h pin = (case map_of h pin of Some v \<Rightarrow> v | None \<Rightarrow> LOW)"

text \<open>
  How a run of a piece of the sketch ends: it returned (with the rest of the
  samples), or the samples ran out while it was still reading (\<open>Waiting\<close>:
  a busy-wait that has not ended yet is this value), or it indexed the plant
  array out of its bounds.
\<close>

datatype outcome = Returned state "env list" | Waiting state | OutOfBounds state

fun state_of :: "outcome \<Rightarrow> state" where
  "state_of (Returned s ws) = s"
| "state_of (Waiting s) = s"
| "state_of (OutOfBounds s) = s"

definition andThen :: "outcome \<Rightarrow> (state \<Rightarrow> env list \<Rightarrow> outcome) \<Rightarrow> outcome" where
  "andThen r f = (case r of Returned s ws \<Rightarrow> f s ws | Waiting s \<Rightarrow> Waiting s
     | OutOfBounds s \<Rightarrow> OutOfBounds s)"

text \<open>\<open>plants[i]\<close>: inside the array only for \<open>0 \<le> i < numPlants\<close>.\<close>

definition plantAt :: "Plant list \<Rightarrow> cint \<Rightarrow> Plant option" where
  "plantAt ps i = (if 0 \<le> sint i \<and> sint i < sint numPlants \<and> nat (sint i) < length ps
     then Some (ps ! nat (sint i)) else None)"

section \<open>The functions of the sketch\<close>

text \<open>Lines 271 to 273. C++ division truncates towards zero (\<open>sdiv\<close>).\<close>

definition elapsedTime :: "Time \<Rightarrow> Time \<Rightarrow> long" where
  "elapsedTime endTime startTime =
     word_of_int (sint (getUnixTime endTime - getUnixTime startTime) sdiv 1000)"

text \<open>Power-on values of the globals (lines 25 to 49, 76, 77).\<close>

definition boot :: "Time \<Rightarrow> state" where
  "boot nt = \<lparr>plants = [gBonsai nt, bBonsai nt, succulent nt], error = False,
     watering = False, plantCounter = 0,
     currentPlant = \<lparr>name = [], pumpPin = 0, lightPin = 0, maxDryTime = 0, waterTime = 0,
       buttonPin = 0, lastWatered = nt, lastWateredFor = 0, needsWater = False\<rparr>,
     lcdCounter = numPlants, lcdLastChange = nt, waterStartTime = nt, currentTime = nt,
     wateringTime = 0, outputs = []\<rparr>"

text \<open>Lines 112 to 114: the plants not yet stamped are the second argument.\<close>

fun stampPlants :: "Plant list \<Rightarrow> Plant list \<Rightarrow> state \<Rightarrow> env list \<Rightarrow> outcome" where
  "stampPlants stamped [] s ws = Returned (s\<lparr>plants := stamped\<rparr>) ws"
| "stampPlants stamped (p # ps) s [] = Waiting (s\<lparr>plants := stamped @ p # ps\<rparr>)"
| "stampPlants stamped (p # ps) s (w # ws) =
     stampPlants (stamped @ [p\<lparr>lastWatered := clock w\<rparr>]) ps s ws"

text \<open>\<open>setup()\<close>, lines 85 to 115.\<close>

fun setup_sketch :: "state \<Rightarrow> env list \<Rightarrow> outcome" where
  "setup_sketch s [] = Waiting (digitalWrite errorLED LOW s)"
| "setup_sketch s (w # ws) =
     stampPlants [] (plants s) ((digitalWrite errorLED LOW s)\<lparr>lcdLastChange := clock w\<rparr>) ws"

text \<open>Lines 118 to 136: fetch the plant under the cursor (a copy), read the clock,
  decide whether the plant is dry and show it on the plant's light.\<close>

fun scanPlant :: "state \<Rightarrow> env list \<Rightarrow> outcome" where
  "scanPlant s ws =
     (case plantAt (plants s) (plantCounter s) of
        None \<Rightarrow> OutOfBounds s
      | Some p \<Rightarrow>
          (case ws of
             [] \<Rightarrow> Waiting (s\<lparr>currentPlant := p\<rparr>)
           | w # ws' \<Rightarrow>
               let nw = (sint (maxDryTime p) \<le> sint (elapsedTime (clock w) (lastWatered p)));
                   s1 = s\<lparr>currentPlant := p\<lparr>needsWater := nw\<rparr>, currentTime := clock w\<rparr>
               in Returned (digitalWrite (lightPin p) nw s1) ws'))"

text \<open>Line 151: wait until the button is released.\<close>

fun awaitRelease :: "state \<Rightarrow> env list \<Rightarrow> outcome" where
  "awaitRelease s [] = Waiting s"
| "awaitRelease s (w # ws) =
     (if digitalRead w (buttonPin (currentPlant s)) = LOW then awaitRelease s ws
      else Returned s ws)"

text \<open>Lines 139 to 156.\<close>

fun checkButton :: "state \<Rightarrow> env list \<Rightarrow> outcome" where
  "checkButton s [] = Waiting s"
| "checkButton s (w # ws) =
     (if digitalRead w (buttonPin (currentPlant s)) = LOW
      then andThen (awaitRelease s ws) (\<lambda>s' ws'. Returned (s'\<lparr>watering := True\<rparr>) ws')
      else Returned s ws)"

text \<open>
  Lines 174 to 194. \<open>watering\<close> is true on entry and the loop is left by
  \<open>break\<close> only. The button is read only when the first operand of \<open>||\<close>
  is false.
\<close>

fun wateringLoop :: "state \<Rightarrow> env list \<Rightarrow> outcome" where
  "wateringLoop s [] = Waiting s"
| "wateringLoop s [w] =
     (let s1 = s\<lparr>currentTime := clock w,
                 wateringTime := elapsedTime (clock w) (waterStartTime s)\<rparr>
      in if sint (waterTime (currentPlant s1)) \<le> sint (wateringTime s1)
         then Returned (s1\<lparr>watering := False\<rparr>) []
         else Waiting s1)"
| "wateringLoop s (w # b # ws) =
     (let s1 = s\<lparr>currentTime := clock w,
                 wateringTime := elapsedTime (clock w) (waterStartTime s)\<rparr>
      in if sint (waterTime (currentPlant s1)) \<le> sint (wateringTime s1)
         then Returned (s1\<lparr>watering := False\<rparr>) (b # ws)
         else if digitalRead b (buttonPin (currentPlant s1)) = LOW
         then Returned (s1\<lparr>watering := False\<rparr>) ws
         else if sint ERR_WATER_TIME \<le> sint (wateringTime s1)
         then Returned (s1\<lparr>error := True, watering := False\<rparr>) ws
         else wateringLoop s1 ws)"

text \<open>Lines 160 to 171: pump on, \<open>wateringTime = 0\<close>, read the start time.\<close>

fun startWatering :: "state \<Rightarrow> env list \<Rightarrow> outcome" where
  "startWatering s [] =
     Waiting ((digitalWrite (pumpPin (currentPlant s)) HIGH s)\<lparr>wateringTime := 0\<rparr>)"
| "startWatering s (w # ws) =
     Returned ((digitalWrite (pumpPin (currentPlant s)) HIGH s)
       \<lparr>wateringTime := 0, waterStartTime := clock w\<rparr>) ws"

text \<open>Lines 197 to 202, run after the loop however it was left. The assignment
  of the \<open>long\<close> to the \<open>int\<close> field keeps the value modulo \<open>2 ^ 16\<close>.\<close>

definition finishWatering :: "state \<Rightarrow> state" where
  "finishWatering s =
     (let s1 = digitalWrite (pumpPin (currentPlant s)) LOW s
      in s1\<lparr>currentPlant := (currentPlant s1)\<lparr>lastWatered := waterStartTime s1,
                lastWateredFor := word_of_int (sint (wateringTime s1))\<rparr>\<rparr>)"

text \<open>Lines 205 to 208.\<close>

definition nextPlant :: "state \<Rightarrow> state" where
  "nextPlant s =
     (let c = plantCounter s + 1
      in s\<lparr>plantCounter := (if sint numPlants \<le> sint c then 0 else c)\<rparr>)"

text \<open>Lines 158 to 209.\<close>

definition waterOrAdvance :: "state \<Rightarrow> env list \<Rightarrow> outcome" where
  "waterOrAdvance s ws =
     (if watering s
      then andThen (andThen (startWatering s ws) wateringLoop)
             (\<lambda>s' ws'. Returned (finishWatering s') ws')
      else Returned (nextPlant s) ws)"

text \<open>Lines 217 to 219.\<close>

definition allPumpsOff :: "state \<Rightarrow> state" where
  "allPumpsOff s =
     fold (\<lambda>p. digitalWrite (pumpPin p) LOW) (take (unat numPlants) (plants s)) s"

text \<open>Lines 233 to 239.\<close>

fun errorWait :: "state \<Rightarrow> env list \<Rightarrow> outcome" where
  "errorWait s [] = Waiting s"
| "errorWait s (w # ws) =
     (if digitalRead w errorResetButton = LOW then Returned (s\<lparr>error := False\<rparr>) ws
      else errorWait s ws)"

text \<open>Lines 212 to 240.\<close>

definition handleError :: "state \<Rightarrow> env list \<Rightarrow> outcome" where
  "handleError s ws =
     (if error s then errorWait (allPumpsOff (digitalWrite errorLED HIGH s)) ws
      else Returned s ws)"

text \<open>\<open>lcdPrint\<close>, lines 278 to 333: of its effects only the two clock reads
  into \<open>currentTime\<close> are kept.\<close>

fun lcdPrint :: "Plant \<Rightarrow> state \<Rightarrow> env list \<Rightarrow> outcome" where
  "lcdPrint p s [] = Waiting s"
| "lcdPrint p s [w] = Waiting (s\<lparr>currentTime := clock w\<rparr>)"
| "lcdPrint p s (w # w' # ws) = Returned (s\<lparr>currentTime := clock w'\<rparr>) ws"

text \<open>Lines 243 to 250.\<close>

definition handleLcd :: "state \<Rightarrow> env list \<Rightarrow> outcome" where
  "handleLcd s ws =
     (let s1 = (if sint LCD_CHANGE_TIME \<le> sint (elapsedTime (currentTime s) (lcdLastChange s))
                then s\<lparr>lcdCounter := (if lcdCounter s + 1 = numPlants then 0
                                        else lcdCounter s + 1)\<rparr>
                else s)
      in case plantAt (plants s1) (lcdCounter s1) of
           None \<Rightarrow> OutOfBounds s1
         | Some p \<Rightarrow> lcdPrint p s1 ws)"

text \<open>\<open>loop()\<close>, lines 117 to 251.\<close>

definition loop :: "state \<Rightarrow> env list \<Rightarrow> outcome" where
  "loop s ws =
     andThen (andThen (andThen (andThen (scanPlant s ws) checkButton) waterOrAdvance)
       handleError) handleLcd"

text \<open>\<open>loop()\<close> called \<open>n\<close> times in a row, as the Arduino core does.\<close>

fun run :: "nat \<Rightarrow> state \<Rightarrow> env list \<Rightarrow> outcome" where
  "run 0 s ws = Returned s ws"
| "run (Suc n) s ws = andThen (loop s ws) (run n)"

section \<open>Predicates and test inputs\<close>

text \<open>What holds of the state and the remaining samples when a piece of the sketch
  returns (\<open>P\<close>), and of the state where it stops otherwise (\<open>Q\<close>).\<close>

definition ends :: "(state \<Rightarrow> env list \<Rightarrow> bool) \<Rightarrow> (state \<Rightarrow> bool) \<Rightarrow> outcome \<Rightarrow> bool" where
  "ends P Q r = (case r of Returned s ws \<Rightarrow> P s ws | Waiting s \<Rightarrow> Q s | OutOfBounds s \<Rightarrow> Q s)"

text \<open>No sample shows the reset button pressed.\<close>

definition noReset :: "env list \<Rightarrow> bool" where
  "noReset ws = (\<forall>w\<in>set ws. digitalRead w errorResetButton \<noteq> LOW)"

text \<open>A sample: the clock's value and the input pins held LOW.\<close>

definition sample :: "long \<Rightarrow> cint list \<Rightarrow> env" where
  "sample t pins = \<lparr>clock = Time t, low = pins\<rparr>"

text \<open>The state in which \<open>loop()\<close> is first called: \<open>setup()\<close> has run on
  16 March 2020, 00:00:00 UTC.\<close>

definition ready :: state where
  "ready = state_of (setup_sketch (boot (Time 0))
     [sample 1584316800 [], sample 1584316800 [], sample 1584316800 [], sample 1584316800 []])"

text \<open>Every pump of the registry reads off.\<close>

definition pumpsOff :: "state \<Rightarrow> bool" where
  "pumpsOff s = (\<forall>p\<in>set (take (unat numPlants) (plants s)). level (outputs s) (pumpPin p) = LOW)"

text \<open>
  A registry whose first plant is to be watered for 400 units, more than
  \<open>ERR_WATER_TIME\<close>; the state after \<open>setup()\<close> with it; samples of a call
  of \<open>loop()\<close> in which that plant's button is pressed and released, the
  session starts at 1584317000 and the clock then shows 99000 and 300000 units
  more. The sketch itself has no such plant.
\<close>

definition slowPlant :: Plant where
  "slowPlant = (gBonsai (Time 1584316800))\<lparr>waterTime := 400\<rparr>"

definition slowReady :: state where
  "slowReady = ready\<lparr>plants := [slowPlant, bBonsai (Time 1584316800), succulent (Time 1584316800)]\<rparr>"

definition faultRun :: "env list" where
  "faultRun = [sample 1584316900 [], sample 1584316900 [12], sample 1584316901 [],
     sample 1584317000 [], sample 1584416000 [], sample 1584416000 [],
     sample 1584617000 [], sample 1584617000 [], sample 1585000000 [11], sample 1586000000 []]"

text \<open>Samples of a call of \<open>loop()\<close> on the sketch's own registry: the button
  of the first plant is pressed and released, the session starts at 1584317000 and
  the button is pressed again 50000 clock units later.\<close>

definition earlyStopRun :: "env list" where
  "earlyStopRun = [sample 1584316900 [], sample 1584316900 [12], sample 1584316901 [],
     sample 1584317000 [], sample 1584327000 [], sample 1584327000 [],
     sample 1584367000 [], sample 1584367000 [12]]"

text \<open>The pump pins of the registry that read HIGH after a history of writes.\<close>

definition pumpsOn :: "Plant list \<Rightarrow> (cint \<times> bool) list \<Rightarrow> cint list" where
  "pumpsOn ps h = filter (\<lambda>pin. level h pin = HIGH) (remdups (map pumpPin ps))"

text \<open>At every moment of a history of writes, at most one pump pin reads HIGH.\<close>

fun atMostOnePump :: "Plant list \<Rightarrow> (cint \<times> bool) list \<Rightarrow> bool" where
  "atMostOnePump ps [] = True"
| "atMostOnePump ps (e # h) = (length (pumpsOn ps (e # h)) \<le> 1 \<and> atMostOnePump ps h)"

text \<open>No light pin and not the error LED is wired to a pump pin.\<close>

definition wiring :: "Plant list \<Rightarrow> bool" where
  "wiring ps = ((\<forall>p\<in>set ps. \<forall>q\<in>set ps. lightPin p \<noteq> pumpPin q) \<and>
     (\<forall>q\<in>set ps. errorLED \<noteq> pumpPin q))"

text \<open>Between sessions no pump is on; during a session only the pump of the plant
  being processed can be.\<close>

definition idle :: "Plant list \<Rightarrow> state \<Rightarrow> bool" where
  "idle ps s = (plants s = ps \<and> atMostOnePump ps (outputs s) \<and> pumpsOn ps (outputs s) = [])"

definition busy :: "Plant list \<Rightarrow> state \<Rightarrow> bool" where
  "busy ps s = (plants s = ps \<and> atMostOnePump ps (outputs s) \<and>
     set (pumpsOn ps (outputs s)) \<subseteq> {pumpPin (currentPlant s)})"

text \<open>
  First calls of \<open>loop()\<close> after \<open>setup()\<close>, no button pressed: with the
  clock 4 units, 4000000 units and 7200000 units after \<open>setup()\<close>.
\<close>

definition firstCall :: "env list" where
  "firstCall = [sample 1584316804 [], sample 1584316804 []]"

definition lateCall :: "env list" where
  "lateCall = [sample 1588316800 [], sample 1588316800 []]"

definition dryRun :: "env list" where
  "dryRun = [sample 1591516800 [], sample 1591516800 []]"

text \<open>The plant array and \<open>lcdLastChange\<close> are what they were.\<close>

definition kept :: "Plant list \<Rightarrow> Time \<Rightarrow> state \<Rightarrow> bool" where
  "kept ps t s = (plants s = ps \<and> lcdLastChange s = t)"


text \<open>
  Samples of a call of \<open>loop()\<close> on the sketch's own registry: the button of the
  first plant is pressed and released, the session starts at 1584317000, and the
  clock is read 300 and then 179999 units later; the button is not pressed again.
\<close>

definition ceilingRun :: "env list" where
  "ceilingRun = [sample 1584316900 [], sample 1584316900 [12], sample 1584316901 [],
     sample 1584317000 [], sample 1584317300 [], sample 1584317300 [],
     sample 1584496999 [], sample 1584496999 []]"
section \<open>Arithmetic of the clock\<close>

lemma sint_long_bounds:
  fixes a :: long
  shows "- 2147483648 \<le> sint a" "sint a < 2147483648"
  using sint_ge[of a] sint_lt[of a] by simp_all

lemma sint_diff_nonneg:
  fixes a b :: long
  assumes "0 \<le> sint a" "0 \<le> sint b"
  shows "sint (a - b) = sint a - sint b"
proof -
  have "signed_take_bit 31 (sint a - sint b) = sint a - sint b"
    using assms sint_long_bounds[of a] sint_long_bounds[of b]
    by (intro signed_take_bit_int_eq_self) simp_all
  then show ?thesis by (simp add: sint_word_diff)
qed

lemma sdiv_1000_bounds:
  fixes x :: int
  assumes "- 2147483648 \<le> x" "x < 2147483648"
  shows "- 2147483648 \<le> x sdiv 1000" "x sdiv 1000 < 2147483648"
proof -
  have "\<bar>x\<bar> div 1000 \<le> \<bar>x\<bar>"
    using zdiv_mono2[of "\<bar>x\<bar>" 1 1000] by simp
  moreover have "0 \<le> \<bar>x\<bar> div 1000"
    by (simp add: pos_imp_zdiv_nonneg_iff)
  ultimately show "- 2147483648 \<le> x sdiv 1000" "x sdiv 1000 < 2147483648"
    using assms by (auto simp: signed_divide_int_def sgn_if)
qed

text \<open>The quotient always fits the \<open>long\<close> that \<open>elapsedTime\<close> returns.\<close>

lemma sint_elapsedTime:
  "sint (elapsedTime e s) = sint (getUnixTime e - getUnixTime s) sdiv 1000"
proof -
  let ?d = "sint (getUnixTime e - getUnixTime s)"
  have "signed_take_bit 31 (?d sdiv 1000) = ?d sdiv 1000"
    using sdiv_1000_bounds[OF sint_long_bounds, of "getUnixTime e - getUnixTime s"]
    by (intro signed_take_bit_int_eq_self) simp_all
  then show ?thesis by (simp add: elapsedTime_def sint_sbintrunc')
qed

lemma sdiv_1000_sign:
  fixes x :: int
  shows "0 \<le> x \<Longrightarrow> 0 \<le> x sdiv 1000" "x \<le> 0 \<Longrightarrow> x sdiv 1000 \<le> 0"
  by (simp_all add: signed_divide_int_def sgn_if pos_imp_zdiv_nonneg_iff)

text \<open>
  With a clock that counts seconds, as \<open>rtc.getUnixTime\<close> is documented to,
  the division by 1000 makes \<open>elapsedTime\<close> count thousands of seconds: five
  minutes after the start it still returns 0.
\<close>

lemma elapsedTime_after_300_units:
  "sint (elapsedTime (Time 1584317100) (Time 1584316800)) = 0"
  by (simp add: elapsedTime_def signed_divide_int_def)

section \<open>How the pieces compose\<close>

lemma ends_simps [simp]:
  "ends P Q (Returned s ws) = P s ws"
  "ends P Q (Waiting s) = Q s"
  "ends P Q (OutOfBounds s) = Q s"
  by (simp_all add: ends_def)

lemma ends_andThen:
  assumes "ends P Q r" and "\<And>s ws. P s ws \<Longrightarrow> ends P' Q' (f s ws)"
    and "\<And>s. Q s \<Longrightarrow> Q' s"
  shows "ends P' Q' (andThen r f)"
  using assms by (cases r) (simp_all add: andThen_def)

lemma ends_state_of: "ends (\<lambda>s ws. Q s) Q r \<Longrightarrow> Q (state_of r)"
  by (cases r) simp_all

lemma ends_weaken:
  "ends P Q r \<Longrightarrow> (\<And>s ws. P s ws \<Longrightarrow> P' s ws) \<Longrightarrow> (\<And>s. Q s \<Longrightarrow> Q' s) \<Longrightarrow> ends P' Q' r"
  by (cases r) simp_all

lemma andThen_frame:
  assumes "\<And>s ws. g (state_of (f s ws)) = g s"
  shows "g (state_of (andThen r f)) = g (state_of r)"
  using assms by (cases r) (simp_all add: andThen_def)

lemma ready_eq:
  "ready = \<lparr>plants = [gBonsai (Time 1584316800), bBonsai (Time 1584316800),
       succulent (Time 1584316800)],
     error = False, watering = False, plantCounter = 0,
     currentPlant = \<lparr>name = [], pumpPin = 0, lightPin = 0, maxDryTime = 0, waterTime = 0,
       buttonPin = 0, lastWatered = Time 0, lastWateredFor = 0, needsWater = False\<rparr>,
     lcdCounter = 3, lcdLastChange = Time 1584316800, waterStartTime = Time 0,
     currentTime = Time 0, wateringTime = 0, outputs = [(8, False)]\<rparr>"
  by (simp add: ready_def boot_def sample_def digitalWrite_def gBonsai_def bBonsai_def
      succulent_def errorLED_def LOW_def numPlants_def)

section \<open>The error wait\<close>

lemma noReset_simps [simp]:
  "noReset []"
  "noReset (w # ws) = (digitalRead w errorResetButton \<noteq> LOW \<and> noReset ws)"
  by (simp_all add: noReset_def)

lemma allPumpsOff_eq:
  "allPumpsOff s = s\<lparr>outputs :=
     rev (map (\<lambda>p. (pumpPin p, LOW)) (take (unat numPlants) (plants s))) @ outputs s\<rparr>"
proof -
  have "fold (\<lambda>p. digitalWrite (pumpPin p) LOW) ps s
          = s\<lparr>outputs := rev (map (\<lambda>p. (pumpPin p, LOW)) ps) @ outputs s\<rparr>"
    for ps :: "Plant list"
    by (induction ps arbitrary: s) (simp_all add: digitalWrite_def)
  then show ?thesis by (simp add: allPumpsOff_def)
qed

lemma errorWait_frame:
  "ends (\<lambda>s' ws'. s' = s\<lparr>error := False\<rparr>) (\<lambda>s'. s' = s) (errorWait s ws)"
  by (induction ws) simp_all

lemma errorWait_noReset: "noReset ws \<Longrightarrow> errorWait s ws = Waiting s"
  by (induction ws) simp_all

lemma handleError_error:
  "error s \<Longrightarrow> noReset ws \<Longrightarrow> \<exists>s'. handleError s ws = Waiting s' \<and> error s'"
  by (simp add: handleError_def errorWait_noReset digitalWrite_def allPumpsOff_eq)

text \<open>Nothing before the error handler clears \<open>error\<close>.\<close>

lemma scanPlant_error:
  "error s \<Longrightarrow> noReset ws \<Longrightarrow> ends (\<lambda>s' ws'. error s' \<and> noReset ws') error (scanPlant s ws)"
  by (cases ws) (simp_all add: digitalWrite_def Let_def split: option.split)

lemma awaitRelease_error:
  "error s \<Longrightarrow> noReset ws \<Longrightarrow> ends (\<lambda>s' ws'. error s' \<and> noReset ws') error (awaitRelease s ws)"
  by (induction ws) simp_all

lemma checkButton_error:
  "error s \<Longrightarrow> noReset ws \<Longrightarrow> ends (\<lambda>s' ws'. error s' \<and> noReset ws') error (checkButton s ws)"
  by (cases ws)
    (auto intro!: ends_andThen[where P="\<lambda>s' ws'. error s' \<and> noReset ws'" and Q=error]
       awaitRelease_error)

lemma wateringLoop_error:
  "error s \<Longrightarrow> noReset ws \<Longrightarrow> ends (\<lambda>s' ws'. error s' \<and> noReset ws') error (wateringLoop s ws)"
  by (induction s ws rule: wateringLoop.induct) (simp_all add: Let_def)

lemma startWatering_error:
  "error s \<Longrightarrow> noReset ws \<Longrightarrow> ends (\<lambda>s' ws'. error s' \<and> noReset ws') error (startWatering s ws)"
  by (cases ws) (simp_all add: digitalWrite_def)

lemma waterOrAdvance_error:
  "error s \<Longrightarrow> noReset ws \<Longrightarrow>
     ends (\<lambda>s' ws'. error s' \<and> noReset ws') error (waterOrAdvance s ws)"
  unfolding waterOrAdvance_def
  by (auto intro!: ends_andThen[where P="\<lambda>s' ws'. error s' \<and> noReset ws'" and Q=error]
        startWatering_error wateringLoop_error
      simp: finishWatering_def digitalWrite_def nextPlant_def Let_def)

section \<open>The scanner's cursor\<close>

lemma handleError_plantCounter:
  "plantCounter (state_of (handleError s ws)) = plantCounter s"
proof (cases "error s")
  case True
  let ?s = "allPumpsOff (digitalWrite errorLED HIGH s)"
  have "ends (\<lambda>s' ws'. plantCounter s' = plantCounter ?s) (\<lambda>s'. plantCounter s' = plantCounter ?s)
          (errorWait ?s ws)"
    by (rule ends_weaken[OF errorWait_frame]) simp_all
  then have "plantCounter (state_of (errorWait ?s ws)) = plantCounter ?s"
    by (rule ends_state_of)
  with True show ?thesis by (simp add: handleError_def digitalWrite_def allPumpsOff_eq)
qed (simp add: handleError_def)

lemma lcdPrint_plantCounter: "plantCounter (state_of (lcdPrint p s ws)) = plantCounter s"
  by (induction p s ws rule: lcdPrint.induct) simp_all

lemma handleLcd_plantCounter:
  "plantCounter (state_of (handleLcd s ws)) = plantCounter s"
  by (simp add: handleLcd_def Let_def lcdPrint_plantCounter split: option.split)

lemma plantAt_cases:
  assumes "plantAt ps i = Some p"
  shows "i = 0 \<or> i = 1 \<or> i = 2"
proof -
  from assms have "0 \<le> sint i" "sint i < 3"
    by (simp_all add: plantAt_def numPlants_def split: if_splits)
  then have "sint i = 0 \<or> sint i = 1 \<or> sint i = 2" by arith
  moreover have "i = word_of_int (sint i)" by simp
  ultimately show ?thesis by (metis word_of_int_0 word_of_int_1 word_of_int_numeral)
qed


section \<open>The watering loop and the error handler\<close>

lemma wateringLoop_fault:
  assumes "sint (elapsedTime (clock w) (waterStartTime s)) < sint (waterTime (currentPlant s))"
    and "digitalRead b (buttonPin (currentPlant s)) \<noteq> LOW"
    and "sint ERR_WATER_TIME \<le> sint (elapsedTime (clock w) (waterStartTime s))"
  shows "wateringLoop s (w # b # ws) =
     Returned (s\<lparr>currentTime := clock w,
                 wateringTime := elapsedTime (clock w) (waterStartTime s),
                 error := True, watering := False\<rparr>) ws"
  using assms by (simp add: Let_def)

lemma level_Cons: "level ((pin, v) # h) q = (if q = pin then v else level h q)"
  by (simp add: level_def)

lemma level_append_off:
  "q \<in> pumpPin ` set ps \<Longrightarrow> level (rev (map (\<lambda>p. (pumpPin p, LOW)) ps) @ h) q = LOW"
proof (induction ps arbitrary: h)
  case Nil
  then show ?case by simp
next
  case (Cons p ps)
  show ?case
  proof (cases "q \<in> pumpPin ` set ps")
    case True
    then show ?thesis using Cons.IH[of "(pumpPin p, LOW) # h"] by simp
  next
    case False
    with Cons.prems have q: "q = pumpPin p" by simp
    have "map_of (rev (map (\<lambda>p. (pumpPin p, LOW)) ps)) q = None"
      using False by (simp add: map_of_eq_None_iff image_image)
    then show ?thesis
      by (simp add: level_def map_add_def q)
  qed
qed

lemma handleError_enters_wait:
  assumes "error s"
  shows "\<exists>sE. (\<forall>ws. handleError s ws = errorWait sE ws) \<and> error sE \<and> pumpsOff sE"
proof -
  let ?s = "allPumpsOff (digitalWrite errorLED HIGH s)"
  have "pumpsOff ?s"
    by (simp add: pumpsOff_def allPumpsOff_eq digitalWrite_def level_append_off)
  moreover have "error ?s" using assms by (simp add: allPumpsOff_eq digitalWrite_def)
  moreover have "\<forall>ws. handleError s ws = errorWait ?s ws"
    using assms by (simp add: handleError_def)
  ultimately show ?thesis by blast
qed

lemma errorWait_ends:
  "error s \<Longrightarrow> pumpsOff s \<Longrightarrow> ends (\<lambda>s' ws'. \<not> error s') pumpsOff (errorWait s ws)"
  by (rule ends_weaken[OF errorWait_frame]) simp_all

lemma handleError_ends:
  "ends (\<lambda>s' ws'. \<not> error s') pumpsOff (handleError s ws)"
proof (cases "error s")
  case True
  then obtain sE where "\<forall>ws. handleError s ws = errorWait sE ws" "error sE" "pumpsOff sE"
    using handleError_enters_wait by blast
  then show ?thesis using errorWait_ends by simp
qed (simp add: handleError_def)

lemma scanPlant_no_error:
  "\<not> error s \<Longrightarrow> ends (\<lambda>s' ws'. \<not> error s') (\<lambda>s'. \<not> error s') (scanPlant s ws)"
  by (cases ws) (simp_all add: digitalWrite_def Let_def split: option.split)

lemma awaitRelease_no_error:
  "\<not> error s \<Longrightarrow> ends (\<lambda>s' ws'. \<not> error s') (\<lambda>s'. \<not> error s') (awaitRelease s ws)"
  by (induction ws) simp_all

lemma checkButton_no_error:
  "\<not> error s \<Longrightarrow> ends (\<lambda>s' ws'. \<not> error s') (\<lambda>s'. \<not> error s') (checkButton s ws)"
  by (cases ws)
    (auto intro!: ends_andThen[where P="\<lambda>s' ws'. \<not> error s'" and Q="\<lambda>s'. \<not> error s'"]
       awaitRelease_no_error)

lemma wateringLoop_no_error:
  "\<not> error s \<Longrightarrow> ends (\<lambda>s' ws'. True) (\<lambda>s'. \<not> error s') (wateringLoop s ws)"
  by (induction s ws rule: wateringLoop.induct) (simp_all add: Let_def)

lemma startWatering_no_error:
  "\<not> error s \<Longrightarrow> ends (\<lambda>s' ws'. \<not> error s') (\<lambda>s'. \<not> error s') (startWatering s ws)"
  by (cases ws) (simp_all add: digitalWrite_def)

lemma waterOrAdvance_no_error:
  assumes "\<not> error s"
  shows "ends (\<lambda>s' ws'. True) (\<lambda>s'. \<not> error s') (waterOrAdvance s ws)"
proof (cases "watering s")
  case True
  have "ends (\<lambda>s' ws'. True) (\<lambda>s'. \<not> error s') (andThen (startWatering s ws) wateringLoop)"
    by (rule ends_andThen[OF startWatering_no_error[OF assms]])
      (simp_all add: wateringLoop_no_error)
  then have "ends (\<lambda>s' ws'. True) (\<lambda>s'. \<not> error s')
     (andThen (andThen (startWatering s ws) wateringLoop)
        (\<lambda>s' ws'. Returned (finishWatering s') ws'))"
    by (rule ends_andThen) simp_all
  with True show ?thesis by (simp add: waterOrAdvance_def)
qed (simp add: waterOrAdvance_def)

lemma lcdPrint_error: "error (state_of (lcdPrint p s ws)) = error s"
  by (induction p s ws rule: lcdPrint.induct) simp_all

lemma handleLcd_error: "error (state_of (handleLcd s ws)) = error s"
  by (simp add: handleLcd_def Let_def lcdPrint_error split: option.split)

lemma loop_error_pumps_off:
  assumes "\<not> error s"
  shows "ends (\<lambda>s' ws'. \<not> error s') (\<lambda>s'. error s' \<longrightarrow> pumpsOff s') (loop s ws)"
proof -
  let ?N = "\<lambda>s'. \<not> error s'"
  have 1: "ends (\<lambda>s' ws'. True) ?N (andThen (andThen (scanPlant s ws) checkButton) waterOrAdvance)"
    by (intro ends_andThen[where P="\<lambda>s' ws'. \<not> error s'" and Q="?N"] scanPlant_no_error
          checkButton_no_error waterOrAdvance_no_error assms) simp_all
  have 2: "ends (\<lambda>s' ws'. \<not> error s') (\<lambda>s'. error s' \<longrightarrow> pumpsOff s')
     (andThen (andThen (andThen (scanPlant s ws) checkButton) waterOrAdvance) handleError)"
    by (rule ends_andThen[OF 1]) (auto intro: ends_weaken[OF handleError_ends])
  show ?thesis unfolding loop_def
  proof (rule ends_andThen[OF 2])
    fix s' :: state and ws' :: "env list"
    assume "\<not> error s'"
    then have "\<not> error (state_of (handleLcd s' ws'))" by (simp add: handleLcd_error)
    then show "ends (\<lambda>s' ws'. \<not> error s') (\<lambda>s'. error s' \<longrightarrow> pumpsOff s') (handleLcd s' ws')"
      by (cases "handleLcd s' ws'") simp_all
  qed simp
qed

lemma wateringLoop_never_faults:
  "sint (waterTime (currentPlant s)) \<le> sint ERR_WATER_TIME \<Longrightarrow>
     error (state_of (wateringLoop s ws)) = error s"
  by (induction s ws rule: wateringLoop.induct) (simp_all add: Let_def)

lemma faultRun_eq:
  "loop slowReady faultRun = Waiting (slowReady\<lparr>error := True, 
     currentPlant := slowPlant\<lparr>lastWatered := Time 1584317000, lastWateredFor := 300\<rparr>,
     waterStartTime := Time 1584317000, currentTime := Time 1584617000, wateringTime := 300,
     outputs := [(- 1, False), (7, False), (6, False), (8, True), (6, False),
        (6, True), (4, False), (8, False)]\<rparr>)"
  by (simp add: loop_def andThen_def slowReady_def ready_eq faultRun_def sample_def
      slowPlant_def gBonsai_def bBonsai_def succulent_def plantAt_def numPlants_def
      Let_def digitalWrite_def digitalRead_def LOW_def HIGH_def elapsedTime_def
      signed_divide_int_def waterOrAdvance_def finishWatering_def handleError_def
      allPumpsOff_def errorLED_def errorResetButton_def ERR_WATER_TIME_def)

lemma earlyStopRun_eq:
  "loop ready earlyStopRun = OutOfBounds (ready\<lparr>
     currentPlant := (gBonsai (Time 1584316800))\<lparr>lastWatered := Time 1584317000,
        lastWateredFor := 50\<rparr>,
     waterStartTime := Time 1584317000, currentTime := Time 1584367000, wateringTime := 50,
     outputs := [(6, False), (6, True), (4, False), (8, False)]\<rparr>)"
  by (simp add: loop_def andThen_def ready_eq earlyStopRun_def sample_def
      gBonsai_def bBonsai_def succulent_def plantAt_def numPlants_def
      Let_def digitalWrite_def digitalRead_def LOW_def HIGH_def elapsedTime_def
      signed_divide_int_def waterOrAdvance_def finishWatering_def handleError_def
      handleLcd_def LCD_CHANGE_TIME_def ERR_WATER_TIME_def)


section \<open>One pump at a time\<close>

lemma pumpsOn_Nil [simp]: "pumpsOn ps [] = []"
  by (simp add: pumpsOn_def level_def LOW_def HIGH_def)

lemma distinct_pumpsOn: "distinct (pumpsOn ps h)"
  by (simp add: pumpsOn_def)

lemma pumpsOn_other:
  "pin \<notin> pumpPin ` set ps \<Longrightarrow> pumpsOn ps ((pin, v) # h) = pumpsOn ps h"
  unfolding pumpsOn_def by (rule filter_cong) (auto simp: level_Cons)

lemma pumpsOn_LOW:
  "pumpsOn ps ((pin, LOW) # h) = filter (\<lambda>q. q \<noteq> pin) (pumpsOn ps h)"
  unfolding pumpsOn_def filter_filter
  by (rule filter_cong) (auto simp: level_Cons LOW_def HIGH_def)

lemma pumpsOn_HIGH:
  assumes "pumpsOn ps h = []"
  shows "set (pumpsOn ps ((pin, HIGH) # h)) \<subseteq> {pin}"
proof
  fix q assume "q \<in> set (pumpsOn ps ((pin, HIGH) # h))"
  then have q: "q \<in> pumpPin ` set ps" "level ((pin, HIGH) # h) q = HIGH"
    by (auto simp: pumpsOn_def)
  show "q \<in> {pin}"
  proof (rule ccontr)
    assume "q \<notin> {pin}"
    with q have "q \<in> set (pumpsOn ps h)" by (auto simp: pumpsOn_def level_Cons)
    with assms show False by simp
  qed
qed

lemma length_le_1:
  assumes "distinct xs" "set xs \<subseteq> {x}"
  shows "length xs \<le> 1"
proof -
  have "length xs = card (set xs)" using assms(1) by (simp add: distinct_card)
  also have "\<dots> \<le> card {x}" using assms(2) by (intro card_mono) simp_all
  finally show ?thesis by simp
qed

lemma idle_busy: "idle ps s \<Longrightarrow> busy ps s"
  by (simp add: idle_def busy_def)

lemma idle_write_other:
  "idle ps s \<Longrightarrow> pin \<notin> pumpPin ` set ps \<Longrightarrow> idle ps (digitalWrite pin v s)"
  by (simp add: idle_def digitalWrite_def pumpsOn_other)

lemma idle_write_LOW: "idle ps s \<Longrightarrow> idle ps (digitalWrite pin LOW s)"
  by (simp add: idle_def digitalWrite_def pumpsOn_LOW)

lemma busy_write_LOW:
  assumes "busy ps s"
  shows "idle ps (digitalWrite (pumpPin (currentPlant s)) LOW s)"
proof -
  have "set (pumpsOn ps (outputs s)) \<subseteq> {pumpPin (currentPlant s)}"
    using assms by (simp add: busy_def)
  then have "pumpsOn ps ((pumpPin (currentPlant s), LOW) # outputs s) = []"
    unfolding pumpsOn_LOW by (auto simp: filter_empty_conv)
  then show ?thesis using assms by (simp add: idle_def busy_def digitalWrite_def)
qed

lemma idle_write_HIGH:
  assumes "idle ps s" "pumpPin (currentPlant s) = pin"
  shows "busy ps (digitalWrite pin HIGH s)"
proof -
  have sub: "set (pumpsOn ps ((pin, HIGH) # outputs s)) \<subseteq> {pin}"
    using assms(1) by (intro pumpsOn_HIGH) (simp add: idle_def)
  then have "length (pumpsOn ps ((pin, HIGH) # outputs s)) \<le> 1"
    by (rule length_le_1[OF distinct_pumpsOn])
  with sub assms show ?thesis by (simp add: idle_def busy_def digitalWrite_def)
qed

lemma plantAt_mem: "plantAt ps i = Some p \<Longrightarrow> p \<in> set ps"
  by (auto simp: plantAt_def split: if_splits)

lemma scanPlant_idle:
  assumes "wiring ps" "idle ps s"
  shows "ends (\<lambda>s' ws'. idle ps s') (idle ps) (scanPlant s ws)"
proof (cases "plantAt (plants s) (plantCounter s)")
  case None
  with assms show ?thesis by simp
next
  case (Some p)
  then have "p \<in> set ps" using assms(2) plantAt_mem by (auto simp: idle_def)
  then have l: "lightPin p \<notin> pumpPin ` set ps" using assms(1) by (auto simp: wiring_def)
  have "idle ps (digitalWrite (lightPin p) v (s\<lparr>currentPlant := q, currentTime := t\<rparr>))" for v q t
    by (rule idle_write_other[OF _ l]) (use assms(2) in \<open>simp add: idle_def\<close>)
  moreover have "idle ps (s\<lparr>currentPlant := p\<rparr>)" using assms(2) by (simp add: idle_def)
  ultimately show ?thesis using Some by (cases ws) (simp_all add: Let_def)
qed

lemma awaitRelease_same: "ends (\<lambda>s' ws'. s' = s) (\<lambda>s'. s' = s) (awaitRelease s ws)"
  by (induction ws) simp_all

lemma checkButton_idle:
  assumes "idle ps s"
  shows "ends (\<lambda>s' ws'. idle ps s') (idle ps) (checkButton s ws)"
proof (cases ws)
  case (Cons w ws')
  have "ends (\<lambda>s' ws'. idle ps s') (idle ps)
     (andThen (awaitRelease s ws') (\<lambda>s' ws'. Returned (s'\<lparr>watering := True\<rparr>) ws'))"
    by (rule ends_andThen[OF awaitRelease_same]) (use assms in \<open>simp_all add: idle_def\<close>)
  with Cons assms show ?thesis by simp
qed (use assms in simp)

lemma startWatering_busy:
  assumes "idle ps s"
  shows "ends (\<lambda>s' ws'. busy ps s') (busy ps) (startWatering s ws)"
proof -
  have "busy ps (digitalWrite (pumpPin (currentPlant s)) HIGH s)"
    using assms by (rule idle_write_HIGH) simp
  then show ?thesis by (cases ws) (simp_all add: busy_def digitalWrite_def)
qed

lemma wateringLoop_busy:
  "busy ps s \<Longrightarrow> ends (\<lambda>s' ws'. busy ps s') (busy ps) (wateringLoop s ws)"
  by (induction s ws rule: wateringLoop.induct) (simp_all add: Let_def busy_def)

lemma finishWatering_idle: "busy ps s \<Longrightarrow> idle ps (finishWatering s)"
  using busy_write_LOW[of ps s] by (simp add: finishWatering_def Let_def idle_def digitalWrite_def)

lemma waterOrAdvance_idle:
  assumes "idle ps s"
  shows "ends (\<lambda>s' ws'. idle ps s') (busy ps) (waterOrAdvance s ws)"
proof (cases "watering s")
  case True
  have "ends (\<lambda>s' ws'. busy ps s') (busy ps) (andThen (startWatering s ws) wateringLoop)"
    by (rule ends_andThen[OF startWatering_busy[OF assms]]) (simp_all add: wateringLoop_busy)
  then have "ends (\<lambda>s' ws'. idle ps s') (busy ps)
     (andThen (andThen (startWatering s ws) wateringLoop)
        (\<lambda>s' ws'. Returned (finishWatering s') ws'))"
    by (rule ends_andThen) (simp_all add: finishWatering_idle)
  with True show ?thesis by (simp add: waterOrAdvance_def)
next
  case False
  with assms show ?thesis by (simp add: waterOrAdvance_def nextPlant_def Let_def idle_def)
qed

lemma allPumpsOff_idle: "idle ps s \<Longrightarrow> idle ps (allPumpsOff s)"
proof -
  have "idle ps s \<Longrightarrow> idle ps (fold (\<lambda>p. digitalWrite (pumpPin p) LOW) qs s)"
    for qs :: "Plant list" and s
    by (induction qs arbitrary: s) (simp_all add: idle_write_LOW)
  then show "idle ps s \<Longrightarrow> idle ps (allPumpsOff s)" by (simp add: allPumpsOff_def)
qed

lemma handleError_idle:
  assumes "wiring ps" "idle ps s"
  shows "ends (\<lambda>s' ws'. idle ps s') (idle ps) (handleError s ws)"
proof (cases "error s")
  case True
  have "errorLED \<notin> pumpPin ` set ps" using assms(1) by (auto simp: wiring_def)
  then have i: "idle ps (allPumpsOff (digitalWrite errorLED HIGH s))"
    using assms(2) by (intro allPumpsOff_idle idle_write_other)
  have "ends (\<lambda>s' ws'. idle ps s') (idle ps)
     (errorWait (allPumpsOff (digitalWrite errorLED HIGH s)) ws)"
    by (rule ends_weaken[OF errorWait_frame]) (use i in \<open>simp_all add: idle_def\<close>)
  with True show ?thesis by (simp add: handleError_def)
qed (use assms in \<open>simp add: handleError_def\<close>)

lemma lcdPrint_idle: "idle ps s \<Longrightarrow> ends (\<lambda>s' ws'. idle ps s') (idle ps) (lcdPrint p s ws)"
  by (induction p s ws rule: lcdPrint.induct) (simp_all add: idle_def)

lemma handleLcd_idle:
  assumes "idle ps s"
  shows "ends (\<lambda>s' ws'. idle ps s') (idle ps) (handleLcd s ws)"
proof -
  have "idle ps (s\<lparr>lcdCounter := c\<rparr>)" for c using assms by (simp add: idle_def)
  then show ?thesis using assms
    by (simp add: handleLcd_def Let_def lcdPrint_idle split: option.split)
qed

lemma loop_idle:
  assumes "wiring ps" "idle ps s"
  shows "ends (\<lambda>s' ws'. idle ps s') (busy ps) (loop s ws)"
proof -
  have 1: "ends (\<lambda>s' ws'. idle ps s') (idle ps) (andThen (scanPlant s ws) checkButton)"
    by (rule ends_andThen[OF scanPlant_idle[OF assms]]) (simp_all add: checkButton_idle)
  have 2: "ends (\<lambda>s' ws'. idle ps s') (busy ps)
     (andThen (andThen (scanPlant s ws) checkButton) waterOrAdvance)"
    by (rule ends_andThen[OF 1]) (simp_all add: waterOrAdvance_idle idle_busy)
  have 3: "ends (\<lambda>s' ws'. idle ps s') (busy ps)
     (andThen (andThen (andThen (scanPlant s ws) checkButton) waterOrAdvance) handleError)"
    by (rule ends_andThen[OF 2])
      (auto intro: ends_weaken[OF handleError_idle[OF assms(1)]] idle_busy)
  show ?thesis unfolding loop_def
    by (rule ends_andThen[OF 3]) (auto intro: ends_weaken[OF handleLcd_idle] idle_busy)
qed

lemma run_idle:
  assumes "wiring ps"
  shows "idle ps s \<Longrightarrow> ends (\<lambda>s' ws'. idle ps s') (busy ps) (run n s ws)"
proof (induction n arbitrary: s ws)
  case 0
  then show ?case by simp
next
  case (Suc n)
  show ?case unfolding run.simps
    by (rule ends_andThen[OF loop_idle[OF assms Suc.prems]]) (simp_all add: Suc.IH)
qed

lemma ready_wiring: "wiring (plants ready)"
  by (simp add: ready_eq wiring_def gBonsai_def bBonsai_def succulent_def errorLED_def)

lemma ready_idle:
  "atMostOnePump (plants ready) (outputs ready)" "pumpsOn (plants ready) (outputs ready) = []"
  by (simp_all add: ready_eq pumpsOn_def level_def gBonsai_def bBonsai_def succulent_def
      LOW_def HIGH_def)

lemma midSession_eq:
  "run 2 ready (take 5 earlyStopRun) = Waiting (ready\<lparr>watering := True,
     currentPlant := gBonsai (Time 1584316800),
     waterStartTime := Time 1584317000, currentTime := Time 1584327000, wateringTime := 10,
     outputs := [(6, True), (4, False), (8, False)]\<rparr>)"
  by (simp add: numeral_2_eq_2 loop_def andThen_def ready_eq earlyStopRun_def sample_def
      gBonsai_def bBonsai_def succulent_def plantAt_def numPlants_def
      Let_def digitalWrite_def digitalRead_def LOW_def HIGH_def elapsedTime_def
      signed_divide_int_def waterOrAdvance_def ERR_WATER_TIME_def)


text \<open>\<open>setup()\<close> leaves the pins of the plants as the sketch declares them
  and has written the error LED only.\<close>

lemma stampPlants_pins:
  "ends (\<lambda>s' ws'. map pumpPin (plants s') = map pumpPin (stamped @ ps) \<and>
            map lightPin (plants s') = map lightPin (stamped @ ps) \<and> outputs s' = outputs s)
        (\<lambda>s'. map pumpPin (plants s') = map pumpPin (stamped @ ps) \<and>
            map lightPin (plants s') = map lightPin (stamped @ ps) \<and> outputs s' = outputs s)
        (stampPlants stamped ps s ws)"
  by (induction stamped ps s ws rule: stampPlants.induct) simp_all

lemma wiring_pins:
  "wiring ps \<longleftrightarrow> set (map lightPin ps) \<inter> set (map pumpPin ps) = {} \<and>
     errorLED \<notin> set (map pumpPin ps)"
  by (auto simp: wiring_def)

lemma setup_idle:
  assumes "setup_sketch (boot nt) ws0 = Returned s ws"
  shows "wiring (plants s) \<and> atMostOnePump (plants s) (outputs s) \<and>
         pumpsOn (plants s) (outputs s) = []"
proof -
  from assms obtain w ws1 where ws0: "ws0 = w # ws1" by (cases ws0) simp_all
  let ?s = "(digitalWrite errorLED LOW (boot nt))\<lparr>lcdLastChange := clock w\<rparr>"
  have "ends (\<lambda>s' ws'. map pumpPin (plants s') = map pumpPin ([] @ plants ?s) \<and>
            map lightPin (plants s') = map lightPin ([] @ plants ?s) \<and> outputs s' = outputs ?s)
        (\<lambda>s'. map pumpPin (plants s') = map pumpPin ([] @ plants ?s) \<and>
            map lightPin (plants s') = map lightPin ([] @ plants ?s) \<and> outputs s' = outputs ?s)
        (stampPlants [] (plants ?s) ?s ws1)"
    by (rule stampPlants_pins)
  with assms ws0 have p: "map pumpPin (plants s) = [6, 7, - 1]"
    "map lightPin (plants s) = [4, 3, 2]" "outputs s = [(errorLED, LOW)]"
    by (simp_all add: boot_def digitalWrite_def gBonsai_def bBonsai_def succulent_def)
  have "wiring (plants s)"
    unfolding wiring_pins p by (simp add: errorLED_def)
  moreover have "pumpsOn (plants s) (outputs s) = []"
    unfolding pumpsOn_def p by (simp add: level_def LOW_def HIGH_def errorLED_def)
  ultimately show ?thesis by (simp add: p(3))
qed

section \<open>What no call writes\<close>

lemma scanPlant_kept:
  "kept ps t s \<Longrightarrow> ends (\<lambda>s' ws'. kept ps t s') (kept ps t) (scanPlant s ws)"
  by (cases ws) (simp_all add: kept_def digitalWrite_def Let_def split: option.split)

lemma checkButton_kept:
  assumes "kept ps t s"
  shows "ends (\<lambda>s' ws'. kept ps t s') (kept ps t) (checkButton s ws)"
proof (cases ws)
  case (Cons w ws')
  have "ends (\<lambda>s' ws'. kept ps t s') (kept ps t)
     (andThen (awaitRelease s ws') (\<lambda>s' ws'. Returned (s'\<lparr>watering := True\<rparr>) ws'))"
    by (rule ends_andThen[OF awaitRelease_same]) (use assms in \<open>simp_all add: kept_def\<close>)
  with Cons assms show ?thesis by simp
qed (use assms in simp)

lemma startWatering_kept:
  "kept ps t s \<Longrightarrow> ends (\<lambda>s' ws'. kept ps t s') (kept ps t) (startWatering s ws)"
  by (cases ws) (simp_all add: kept_def digitalWrite_def)

lemma wateringLoop_kept:
  "kept ps t s \<Longrightarrow> ends (\<lambda>s' ws'. kept ps t s') (kept ps t) (wateringLoop s ws)"
  by (induction s ws rule: wateringLoop.induct) (simp_all add: Let_def kept_def)

lemma waterOrAdvance_kept:
  assumes "kept ps t s"
  shows "ends (\<lambda>s' ws'. kept ps t s') (kept ps t) (waterOrAdvance s ws)"
proof (cases "watering s")
  case True
  have "ends (\<lambda>s' ws'. kept ps t s') (kept ps t) (andThen (startWatering s ws) wateringLoop)"
    by (rule ends_andThen[OF startWatering_kept[OF assms]]) (simp_all add: wateringLoop_kept)
  then have "ends (\<lambda>s' ws'. kept ps t s') (kept ps t)
     (andThen (andThen (startWatering s ws) wateringLoop)
        (\<lambda>s' ws'. Returned (finishWatering s') ws'))"
    by (rule ends_andThen)
      (simp_all add: finishWatering_def digitalWrite_def Let_def kept_def)
  with True show ?thesis by (simp add: waterOrAdvance_def)
next
  case False
  with assms show ?thesis by (simp add: waterOrAdvance_def nextPlant_def Let_def kept_def)
qed

lemma handleError_kept:
  assumes "kept ps t s"
  shows "ends (\<lambda>s' ws'. kept ps t s') (kept ps t) (handleError s ws)"
proof (cases "error s")
  case True
  have "ends (\<lambda>s' ws'. kept ps t s') (kept ps t)
     (errorWait (allPumpsOff (digitalWrite errorLED HIGH s)) ws)"
    by (rule ends_weaken[OF errorWait_frame])
      (use assms in \<open>simp_all add: kept_def allPumpsOff_eq digitalWrite_def\<close>)
  with True show ?thesis by (simp add: handleError_def)
qed (use assms in \<open>simp add: handleError_def\<close>)

lemma lcdPrint_kept:
  "kept ps t s \<Longrightarrow> ends (\<lambda>s' ws'. kept ps t s') (kept ps t) (lcdPrint p s ws)"
  by (induction p s ws rule: lcdPrint.induct) (simp_all add: kept_def)

lemma handleLcd_kept:
  assumes "kept ps t s"
  shows "ends (\<lambda>s' ws'. kept ps t s') (kept ps t) (handleLcd s ws)"
proof -
  have "kept ps t (s\<lparr>lcdCounter := c\<rparr>)" for c using assms by (simp add: kept_def)
  then show ?thesis using assms
    by (simp add: handleLcd_def Let_def lcdPrint_kept split: option.split)
qed

text \<open>No call of \<open>loop()\<close> writes the plant array or \<open>lcdLastChange\<close>.\<close>

lemma loop_kept:
  "plants (state_of (loop s ws)) = plants s \<and>
   lcdLastChange (state_of (loop s ws)) = lcdLastChange s"
proof -
  let ?K = "kept (plants s) (lcdLastChange s)"
  have 0: "?K s" by (simp add: kept_def)
  have "ends (\<lambda>s' ws'. ?K s') ?K (loop s ws)"
    unfolding loop_def
    by (intro ends_andThen[where P="\<lambda>s' ws'. ?K s'" and Q="?K"] scanPlant_kept
        checkButton_kept waterOrAdvance_kept handleError_kept handleLcd_kept 0)
  then have "?K (state_of (loop s ws))" by (rule ends_state_of)
  then show ?thesis by (simp add: kept_def)
qed

lemma dryRun_eq:
  "loop ready dryRun = OutOfBounds (ready\<lparr>plantCounter := 1,
     currentPlant := (gBonsai (Time 1584316800))\<lparr>needsWater := True\<rparr>,
     lcdCounter := 4, currentTime := Time 1591516800,
     outputs := [(4, True), (8, False)]\<rparr>)"
  by (simp add: loop_def andThen_def ready_eq dryRun_def sample_def
      gBonsai_def bBonsai_def succulent_def plantAt_def numPlants_def
      Let_def digitalWrite_def digitalRead_def LOW_def HIGH_def elapsedTime_def
      signed_divide_int_def waterOrAdvance_def nextPlant_def handleError_def
      handleLcd_def LCD_CHANGE_TIME_def)

lemma firstCall_eq:
  "loop ready firstCall = OutOfBounds (ready\<lparr>
     plantCounter := 1, currentPlant := gBonsai (Time 1584316800),
     currentTime := Time 1584316804, outputs := [(4, False), (8, False)]\<rparr>)"
  by (simp add: loop_def andThen_def ready_eq firstCall_def sample_def
      gBonsai_def bBonsai_def succulent_def plantAt_def numPlants_def
      Let_def digitalWrite_def digitalRead_def LOW_def HIGH_def elapsedTime_def
      signed_divide_int_def waterOrAdvance_def nextPlant_def handleError_def
      handleLcd_def LCD_CHANGE_TIME_def)

lemma lateCall_eq:
  "loop ready lateCall = OutOfBounds (ready\<lparr>
     plantCounter := 1, currentPlant := gBonsai (Time 1584316800),
     lcdCounter := 4, currentTime := Time 1588316800,
     outputs := [(4, False), (8, False)]\<rparr>)"
  by (simp add: loop_def andThen_def ready_eq lateCall_def sample_def
      gBonsai_def bBonsai_def succulent_def plantAt_def numPlants_def
      Let_def digitalWrite_def digitalRead_def LOW_def HIGH_def elapsedTime_def
      signed_divide_int_def waterOrAdvance_def nextPlant_def handleError_def
      handleLcd_def LCD_CHANGE_TIME_def)

lemma waterOrAdvance_plants: "plants (state_of (waterOrAdvance s ws)) = plants s"
proof -
  let ?K = "kept (plants s) (lcdLastChange s)"
  have "ends (\<lambda>s' ws'. ?K s') ?K (waterOrAdvance s ws)"
    by (rule waterOrAdvance_kept) (simp add: kept_def)
  then have "?K (state_of (waterOrAdvance s ws))" by (rule ends_state_of)
  then show ?thesis by (simp add: kept_def)
qed

lemma session_then_error_plants:
  "plants (state_of (andThen (waterOrAdvance s ws) handleError)) = plants s"
proof -
  let ?K = "kept (plants s) (lcdLastChange s)"
  have "ends (\<lambda>s' ws'. ?K s') ?K (andThen (waterOrAdvance s ws) handleError)"
    by (intro ends_andThen[where P="\<lambda>s' ws'. ?K s'" and Q="?K"] waterOrAdvance_kept
        handleError_kept) (simp_all add: kept_def)
  then have "?K (state_of (andThen (waterOrAdvance s ws) handleError))" by (rule ends_state_of)
  then show ?thesis by (simp add: kept_def)
qed

text \<open>With a plant of \<open>waterTime = 400\<close>, which the sketch does not have, a
  session does end in a fault stop; the registry entry is what it was.\<close>

lemma fault_stop_example:
  "\<not> error slowReady \<and> error (state_of (loop slowReady faultRun)) \<and>
   plantAt (plants slowReady) 0 = Some slowPlant \<and>
   plantAt (plants (state_of (loop slowReady faultRun))) 0 = Some slowPlant \<and>
   lastWatered slowPlant = Time 1584316800 \<and> lastWateredFor slowPlant = 0 \<and>
   waterStartTime (state_of (loop slowReady faultRun)) = Time 1584317000 \<and>
   wateringTime (state_of (loop slowReady faultRun)) = 300"
  unfolding faultRun_eq
  by (simp add: slowReady_def ready_eq plantAt_def numPlants_def slowPlant_def gBonsai_def)

section \<open>The safety ceiling on the sketch's own plants\<close>

lemma ceilingRun_300_eq:
  "loop ready (take 6 ceilingRun) = Waiting (ready\<lparr>watering := True,
     currentPlant := gBonsai (Time 1584316800),
     waterStartTime := Time 1584317000, currentTime := Time 1584317300, wateringTime := 0,
     outputs := [(6, True), (4, False), (8, False)]\<rparr>)"
  by (simp add: loop_def andThen_def ready_eq ceilingRun_def sample_def
      gBonsai_def bBonsai_def succulent_def plantAt_def numPlants_def
      Let_def digitalWrite_def digitalRead_def LOW_def HIGH_def elapsedTime_def
      signed_divide_int_def waterOrAdvance_def ERR_WATER_TIME_def)

lemma ceilingRun_eq:
  "loop ready ceilingRun = Waiting (ready\<lparr>watering := True,
     currentPlant := gBonsai (Time 1584316800),
     waterStartTime := Time 1584317000, currentTime := Time 1584496999, wateringTime := 179,
     outputs := [(6, True), (4, False), (8, False)]\<rparr>)"
  by (simp add: loop_def andThen_def ready_eq ceilingRun_def sample_def
      gBonsai_def bBonsai_def succulent_def plantAt_def numPlants_def
      Let_def digitalWrite_def digitalRead_def LOW_def HIGH_def elapsedTime_def
      signed_divide_int_def waterOrAdvance_def ERR_WATER_TIME_def)
section \<open>The claims\<close>

text \<open>
  C7, as the code has it. \<open>elapsedTime a b\<close> is a signed quantity with the sign
  of the clock difference, for clock values that are not negative (so that the
  subtraction does not overflow): it is at least 0 when \<open>a\<close> is not before
  \<open>b\<close>, at most 0 when \<open>a\<close> precedes \<open>b\<close>, and swapping the arguments
  negates it. Nothing clamps it at zero.
\<close>

theorem elapsedTime_sign:
  assumes "0 \<le> sint (getUnixTime a)" and "0 \<le> sint (getUnixTime b)"
  shows "(sint (getUnixTime b) \<le> sint (getUnixTime a) \<longrightarrow> 0 \<le> sint (elapsedTime a b)) \<and>
         (sint (getUnixTime a) < sint (getUnixTime b) \<longrightarrow> sint (elapsedTime a b) \<le> 0) \<and>
         sint (elapsedTime a b) = - sint (elapsedTime b a)"
proof -
  have d: "sint (getUnixTime a - getUnixTime b) = sint (getUnixTime a) - sint (getUnixTime b)"
    using assms by (rule sint_diff_nonneg)
  have d': "sint (getUnixTime b - getUnixTime a) = sint (getUnixTime b) - sint (getUnixTime a)"
    using assms(2,1) by (rule sint_diff_nonneg)
  have "sint (getUnixTime b - getUnixTime a) = - sint (getUnixTime a - getUnixTime b)"
    using d d' by simp
  then have anti: "sint (elapsedTime a b) = - sint (elapsedTime b a)"
    by (simp add: sint_elapsedTime)
  show ?thesis
    using anti sdiv_1000_sign[of "sint (getUnixTime a) - sint (getUnixTime b)"]
    by (simp add: sint_elapsedTime d)
qed

theorem elapsedTime_sign_witness:
  "0 \<le> sint (getUnixTime (Time 1584316800)) \<and> 0 \<le> sint (getUnixTime (Time 1584321800)) \<and>
   sint (getUnixTime (Time 1584316800)) < sint (getUnixTime (Time 1584321800)) \<and>
   sint (elapsedTime (Time 1584316800) (Time 1584321800)) \<le> 0 \<and>
   0 \<le> sint (elapsedTime (Time 1584321800) (Time 1584316800))"
  using elapsedTime_sign [of "Time 1584316800" "Time 1584321800"]
        elapsedTime_sign [of "Time 1584321800" "Time 1584316800"]
  by simp

text \<open>
  C7 as stated fails: the first time stamp precedes the second by 5000 clock
  units and the result is \<open>- 5\<close>, not 0.
\<close>

theorem elapsedTime_negative:
  "sint (getUnixTime (Time 1584316800)) < sint (getUnixTime (Time 1584321800)) \<and>
   sint (elapsedTime (Time 1584316800) (Time 1584321800)) = - 5"
  by (simp add: elapsedTime_def signed_divide_int_def)

text \<open>
  C5. Once \<open>error\<close> is set, only a sample that shows the reset button (pin 10)
  LOW clears it: on samples without one, whatever their clock values and other
  pins, the wait of lines 233 to 239 is still waiting in the same state, and a
  call of \<open>loop()\<close> entered with \<open>error\<close> set never returns and ends with
  \<open>error\<close> set.
\<close>

theorem error_left_by_reset_only:
  assumes "error s" and "\<forall>w\<in>set ws. digitalRead w errorResetButton \<noteq> LOW"
  shows "errorWait s ws = Waiting s \<and> error (state_of (loop s ws)) \<and>
         (\<forall>s' ws'. loop s ws \<noteq> Returned s' ws')"
proof -
  have nr: "noReset ws" using assms(2) by (simp add: noReset_def)
  let ?P = "\<lambda>s' ws'. error s' \<and> noReset ws'"
  let ?r = "andThen (andThen (scanPlant s ws) checkButton) waterOrAdvance"
  have c: "ends ?P error ?r"
    by (intro ends_andThen[where P="?P" and Q=error] scanPlant_error checkButton_error
        waterOrAdvance_error) (simp_all add: assms(1) nr)
  have "ends (\<lambda>_ _. False) error (andThen ?r handleError)"
  proof (cases ?r)
    case (Returned s1 ws1)
    with c have "error s1" "noReset ws1" by simp_all
    then obtain s' where "handleError s1 ws1 = Waiting s'" "error s'"
      using handleError_error by blast
    with Returned show ?thesis by (simp add: andThen_def)
  qed (use c in \<open>simp_all add: andThen_def\<close>)
  then have "ends (\<lambda>_ _. False) error (loop s ws)"
    unfolding loop_def by (cases "andThen ?r handleError") (simp_all add: andThen_def)
  then have "error (state_of (loop s ws)) \<and> (\<forall>s' ws'. loop s ws \<noteq> Returned s' ws')"
    by (cases "loop s ws") simp_all
  then show ?thesis using errorWait_noReset[OF nr] by simp
qed

theorem error_left_by_reset_only_witness:
  "errorWait (ready\<lparr>error := True\<rparr>)
     [sample 1584316900 [], sample 1585316900 [12], sample 1586316900 [11, 12]]
     = Waiting (ready\<lparr>error := True\<rparr>) \<and>
   error (state_of (loop (ready\<lparr>error := True\<rparr>)
     [sample 1584316900 [], sample 1585316900 [12], sample 1586316900 [11, 12]]))"
  using error_left_by_reset_only [of "ready\<lparr>error := True\<rparr>"
          "[sample 1584316900 [], sample 1585316900 [12], sample 1586316900 [11, 12]]"]
  by (simp add: digitalRead_def sample_def errorResetButton_def LOW_def HIGH_def)

text \<open>
  C9. In a call of \<open>loop()\<close> entered with \<open>watering\<close> false, in which the
  button of the plant under the cursor does not read LOW, the cursor moves to the
  next index, and from the last index to 0: the new index is the old one plus 1
  modulo 3, however the call goes on after that.
\<close>

theorem scanner_advances:
  assumes "\<not> watering s" and "plantAt (plants s) (plantCounter s) = Some p"
    and "digitalRead b (buttonPin p) \<noteq> LOW"
  shows "plantCounter (state_of (loop s (w # b # ws))) =
           (if plantCounter s = numPlants - 1 then 0 else plantCounter s + 1) \<and>
         sint (plantCounter (state_of (loop s (w # b # ws)))) = (sint (plantCounter s) + 1) mod 3"
proof -
  obtain s1 where s1: "scanPlant s (w # b # ws) = Returned s1 (b # ws)"
    "buttonPin (currentPlant s1) = buttonPin p" "watering s1 = watering s"
    "plantCounter s1 = plantCounter s"
    using assms(2) by (simp add: Let_def digitalWrite_def)
  have "andThen (andThen (scanPlant s (w # b # ws)) checkButton) waterOrAdvance
          = Returned (nextPlant s1) ws"
    using s1 assms(1,3) by (simp add: andThen_def waterOrAdvance_def)
  then have "plantCounter (state_of (loop s (w # b # ws))) = plantCounter (nextPlant s1)"
    by (simp add: loop_def andThen_frame[where g=plantCounter] handleLcd_plantCounter
        handleError_plantCounter)
  moreover have "plantCounter (nextPlant s1) =
      (if plantCounter s = numPlants - 1 then 0 else plantCounter s + 1)"
    using plantAt_cases[OF assms(2)] s1(4) by (auto simp: nextPlant_def numPlants_def Let_def)
  moreover have "sint (if plantCounter s = numPlants - 1 then 0 else plantCounter s + 1)
       = (sint (plantCounter s) + 1) mod 3"
    using plantAt_cases[OF assms(2)] by (auto simp: numPlants_def)
  ultimately show ?thesis by simp
qed

theorem scanner_advances_witness:
  "plantCounter (state_of (loop ready [sample 1584316801 [], sample 1584316801 [11]])) = 1 \<and>
   plantCounter (state_of (loop (ready\<lparr>plantCounter := 2\<rparr>)
      [sample 1584316801 [], sample 1584316801 [12]])) = 0"
  using scanner_advances [of ready "gBonsai (Time 1584316800)" "sample 1584316801 [11]"
          "sample 1584316801 []" "[]"]
        scanner_advances [of "ready\<lparr>plantCounter := 2\<rparr>" "succulent (Time 1584316800)"
          "sample 1584316801 [12]" "sample 1584316801 []" "[]"]
  by (simp add: ready_eq plantAt_def numPlants_def gBonsai_def succulent_def digitalRead_def
      sample_def LOW_def HIGH_def)

text \<open>
  C1 at a failing input. A session of LEFT BONSAI (\<open>waterTime = 180\<close>) starts
  at 1584317000 and the button is not pressed again. 300 clock units after the
  start, \<open>elapsedTime\<close> makes the elapsed watering time 0: the loop goes on,
  \<open>error\<close> is not set and the pump (pin 6) is on. 179999 units after the start
  the elapsed watering time is 179 and the same holds.
\<close>

theorem ceiling_not_enforced:
  "waterStartTime (state_of (loop ready (take 6 ceilingRun))) = Time 1584317000 \<and>
   currentTime (state_of (loop ready (take 6 ceilingRun))) = Time 1584317300 \<and>
   wateringTime (state_of (loop ready (take 6 ceilingRun))) = 0 \<and>
   watering (state_of (loop ready (take 6 ceilingRun))) \<and>
   \<not> error (state_of (loop ready (take 6 ceilingRun))) \<and>
   level (outputs (state_of (loop ready (take 6 ceilingRun)))) 6 = HIGH \<and>
   currentTime (state_of (loop ready ceilingRun)) = Time 1584496999 \<and>
   wateringTime (state_of (loop ready ceilingRun)) = 179 \<and>
   watering (state_of (loop ready ceilingRun)) \<and>
   \<not> error (state_of (loop ready ceilingRun)) \<and>
   level (outputs (state_of (loop ready ceilingRun))) 6 = HIGH"
  unfolding ceilingRun_300_eq ceilingRun_eq
  by (simp add: ready_eq level_def HIGH_def)

text \<open>
  C6. No call of \<open>loop()\<close> writes the registry, whether its watering session
  ends in a normal stop, in a fault stop or not at all: every plant's
  \<open>lastWatered\<close> and \<open>lastWateredFor\<close> in \<open>plants\<close> are what they were,
  after the session code of lines 158 to 209, after the error handler that
  follows it, and at the end of the call. A fault stop therefore leaves the
  time from which the next scan of the plant measures its dryness unchanged.
\<close>

theorem fault_stop_keeps_registry:
  "plants (state_of (loop s ws)) = plants s \<and>
   map lastWatered (plants (state_of (loop s ws))) = map lastWatered (plants s) \<and>
   map lastWateredFor (plants (state_of (loop s ws))) = map lastWateredFor (plants s) \<and>
   plants (state_of (waterOrAdvance s ws)) = plants s \<and>
   plants (state_of (andThen (waterOrAdvance s ws) handleError)) = plants s"
  using loop_kept [of s ws] waterOrAdvance_plants [of s ws]
    session_then_error_plants [of s ws]
  by simp

text \<open>
  C3 at a failing input. The session of LEFT BONSAI starts at 1584317000 and is
  stopped by its button at an elapsed time of 50: the pump (pin 6) is off, but the
  registry is what it was before the call, the plant's entry still has
  \<open>lastWatered = 1584316800\<close> (the time of \<open>setup()\<close>) and
  \<open>lastWateredFor = 0\<close>. Only the copy \<open>currentPlant\<close> was assigned.
\<close>

theorem early_stop_leaves_registry:
  "waterStartTime (state_of (loop ready earlyStopRun)) = Time 1584317000 \<and>
   wateringTime (state_of (loop ready earlyStopRun)) = 50 \<and>
   \<not> watering (state_of (loop ready earlyStopRun)) \<and>
   \<not> error (state_of (loop ready earlyStopRun)) \<and>
   level (outputs (state_of (loop ready earlyStopRun))) 6 = LOW \<and>
   plantAt (plants (state_of (loop ready earlyStopRun))) 0 = Some (gBonsai (Time 1584316800)) \<and>
   lastWatered (gBonsai (Time 1584316800)) = Time 1584316800 \<and>
   lastWateredFor (gBonsai (Time 1584316800)) = 0 \<and>
   plants (state_of (loop ready earlyStopRun)) = plants ready"
  unfolding earlyStopRun_eq
  by (simp add: ready_eq level_def LOW_def plantAt_def numPlants_def gBonsai_def)

text \<open>
  C2. Let no light pin and not the error LED be wired to a pump pin, as in the
  sketch, and let \<open>loop()\<close> be entered with every pump off after a history in
  which at most one pump was on at any moment. Then after any number of calls of
  \<open>loop()\<close>, on any samples of clock and buttons and wherever the observation
  ends (inside a busy-wait too), at most one pump pin was HIGH at every moment of
  the history of writes, and the registry is what it was. The state in which
  \<open>setup()\<close> returns, whatever the clock showed, is such a state.
\<close>

theorem one_pump_at_a_time:
  "(wiring (plants s) \<and> atMostOnePump (plants s) (outputs s) \<and>
      pumpsOn (plants s) (outputs s) = [] \<longrightarrow>
    atMostOnePump (plants s) (outputs (state_of (run n s ws))) \<and>
    plants (state_of (run n s ws)) = plants s) \<and>
   (setup_sketch (boot nt) ws0 = Returned s0 ws1 \<longrightarrow>
    atMostOnePump (plants s0) (outputs (state_of (run n s0 ws1))))"
proof -
  have run: "atMostOnePump (plants s) (outputs (state_of (run n s ws))) \<and>
      plants (state_of (run n s ws)) = plants s"
    if "wiring (plants s)" "atMostOnePump (plants s) (outputs s)"
      "pumpsOn (plants s) (outputs s) = []" for s ws
  proof -
    have "idle (plants s) s" using that(2,3) by (simp add: idle_def)
    then have "ends (\<lambda>s' ws'. idle (plants s) s') (busy (plants s)) (run n s ws)"
      by (rule run_idle[OF that(1)])
    then have "busy (plants s) (state_of (run n s ws))"
      by (cases "run n s ws") (simp_all add: idle_busy)
    then show ?thesis by (simp add: busy_def)
  qed
  show ?thesis using run[of s ws] run[of s0 ws1] setup_idle[of nt ws0 s0 ws1] by blast
qed

theorem one_pump_at_a_time_witness:
  "atMostOnePump (plants ready) (outputs (state_of (run 2 ready (take 5 earlyStopRun)))) \<and>
   pumpsOn (plants ready) (outputs (state_of (run 2 ready (take 5 earlyStopRun)))) = [6]"
proof -
  have "pumpsOn (plants ready) (outputs (state_of (run 2 ready (take 5 earlyStopRun)))) = [6]"
    unfolding midSession_eq
    by (simp add: ready_eq pumpsOn_def level_def gBonsai_def bBonsai_def succulent_def
      LOW_def HIGH_def)
  with one_pump_at_a_time [of ready 2 "take 5 earlyStopRun"] ready_wiring ready_idle
  show ?thesis by simp
qed

text \<open>
  C4 at a failing input. LEFT BONSAI was last watered 7200000 clock units before
  the scan, so the elapsed time, 7200, has reached its \<open>maxDryTime\<close>. After the
  scan the light (pin 4) is on and the copy \<open>currentPlant\<close> has
  \<open>needsWater\<close> set, but the plant's entry in the registry still has
  \<open>needsWater\<close> false.
\<close>

theorem scan_leaves_registry:
  "plantAt (plants ready) (plantCounter ready) = Some (gBonsai (Time 1584316800)) \<and>
   sint (maxDryTime (gBonsai (Time 1584316800)))
     \<le> sint (elapsedTime (Time 1591516800) (lastWatered (gBonsai (Time 1584316800)))) \<and>
   currentTime (state_of (loop ready dryRun)) = Time 1591516800 \<and>
   level (outputs (state_of (loop ready dryRun))) (lightPin (gBonsai (Time 1584316800))) = HIGH \<and>
   needsWater (currentPlant (state_of (loop ready dryRun))) \<and>
   plantAt (plants (state_of (loop ready dryRun))) 0 = Some (gBonsai (Time 1584316800)) \<and>
   \<not> needsWater (gBonsai (Time 1584316800))"
  unfolding dryRun_eq
  by (simp add: ready_eq level_def HIGH_def plantAt_def numPlants_def gBonsai_def
      elapsedTime_def signed_divide_int_def)

text \<open>
  C8 at failing inputs. In the first call of \<open>loop()\<close>, 4 clock units after
  \<open>lcdLastChange\<close>, \<open>elapsedTime\<close> is 0 and the cursor stays where it was.
  In a call 4000000 units after \<open>lcdLastChange\<close>, \<open>elapsedTime\<close> is 4000:
  the cursor goes from 3 to 4 instead of wrapping, and \<open>lcdLastChange\<close> is
  not reset.
\<close>

theorem display_dwell_not_kept:
  "lcdLastChange ready = Time 1584316800 \<and>
   currentTime (state_of (loop ready firstCall)) = Time 1584316804 \<and>
   sint (elapsedTime (Time 1584316804) (Time 1584316800)) = 0 \<and>
   lcdCounter (state_of (loop ready firstCall)) = lcdCounter ready \<and>
   currentTime (state_of (loop ready lateCall)) = Time 1588316800 \<and>
   sint (elapsedTime (Time 1588316800) (Time 1584316800)) = 4000 \<and>
   lcdCounter (state_of (loop ready lateCall)) = 4 \<and>
   lcdLastChange (state_of (loop ready lateCall)) = Time 1584316800"
  unfolding firstCall_eq lateCall_eq
  by (simp add: ready_eq elapsedTime_def signed_divide_int_def)

text \<open>
  C10 at a failing input. \<open>setup()\<close> leaves \<open>lcdCounter = numPlants\<close>, and
  the first call of \<open>loop()\<close> reads \<open>plants[3]\<close> for the display, outside
  the array.
\<close>

theorem display_reads_out_of_bounds:
  "lcdCounter ready = numPlants \<and>
   loop ready firstCall = OutOfBounds (state_of (loop ready firstCall)) \<and>
   lcdCounter (state_of (loop ready firstCall)) = 3 \<and>
   plantAt (plants (state_of (loop ready firstCall))) 3 = None \<and>
   handleLcd (ready\<lparr>currentTime := Time 1584316804\<rparr>) [] =
     OutOfBounds (ready\<lparr>currentTime := Time 1584316804\<rparr>)"
  unfolding firstCall_eq
  by (simp add: ready_eq numPlants_def plantAt_def handleLcd_def LCD_CHANGE_TIME_def
      elapsedTime_def signed_divide_int_def)
end
